theory Spec2Isabelle
  imports Main "HOL-Library.Word" "HOL-Library.Monad_Syntax"
begin

section \<open>Data model of script/standard.cpp\<close>

text \<open>
  A script is a sequence of unsigned bytes; positions in it (the C++ iterators) are
  indices counted from \<open>script.begin()\<close>, \<open>length script\<close> standing for
  \<open>script.end()\<close>. An opcode is the byte it is read from (the enum \<open>opcodetype\<close>
  has the values 0 to 0xff).
\<close>

type_synonym byte = "8 word"
type_synonym valtype = "byte list"
type_synonym CScript = "byte list"
type_synonym opcodetype = "8 word"

text \<open>The classification tags of a build without \<open>DEBUG\<close>.\<close>

datatype txnouttype =
    TX_NONSTANDARD
  | TX_PUBKEY
  | TX_PUBKEYHASH
  | TX_SCRIPTHASH
  | TX_MULTISIG
  | TX_NULL_DATA
  | TX_CUSTOM
  | TX_COLOR_PUBKEYHASH
  | TX_COLOR_SCRIPTHASH

text \<open>
  The destination variant of a build without \<open>DEBUG\<close>. \<open>CKeyID\<close> and
  \<open>CScriptID\<close> wrap a \<open>uint160\<close>, kept here as its 20 bytes.
\<close>

datatype CTxDestination =
    CNoDestination
  | CKeyID valtype
  | CScriptID valtype

text \<open>
  Modelled from the spec: the opcode numbering of script/script.h, which
  script/standard.cpp uses and does not declare. The spec gives the push range 0x01 to 0x4b, \<open>OP_0\<close>,
  \<open>OP_1\<close> to \<open>OP_16\<close>, \<open>DUP\<close>, \<open>HASH160\<close>, \<open>EQUALVERIFY\<close>, \<open>EQUAL\<close>,
  \<open>CHECKSIG\<close>, \<open>CHECKMULTISIG\<close> and \<open>RETURN\<close> and calls the rest the standard
  opcode stream; the other values are those of that standard numbering, and
  \<open>OP_COLOR\<close> is the opcode that follows \<open>OP_CHECKDATASIGVERIFY\<close>.
\<close>

abbreviation OP_0 :: opcodetype where "OP_0 \<equiv> 0x00"
abbreviation OP_PUSHDATA1 :: opcodetype where "OP_PUSHDATA1 \<equiv> 0x4c"
abbreviation OP_PUSHDATA2 :: opcodetype where "OP_PUSHDATA2 \<equiv> 0x4d"
abbreviation OP_PUSHDATA4 :: opcodetype where "OP_PUSHDATA4 \<equiv> 0x4e"
abbreviation OP_RESERVED :: opcodetype where "OP_RESERVED \<equiv> 0x50"
abbreviation OP_1 :: opcodetype where "OP_1 \<equiv> 0x51"
abbreviation OP_16 :: opcodetype where "OP_16 \<equiv> 0x60"
abbreviation OP_VER :: opcodetype where "OP_VER \<equiv> 0x62"
abbreviation OP_VERIF :: opcodetype where "OP_VERIF \<equiv> 0x65"
abbreviation OP_VERNOTIF :: opcodetype where "OP_VERNOTIF \<equiv> 0x66"
abbreviation OP_RETURN :: opcodetype where "OP_RETURN \<equiv> 0x6a"
abbreviation OP_DUP :: opcodetype where "OP_DUP \<equiv> 0x76"
abbreviation OP_CAT :: opcodetype where "OP_CAT \<equiv> 0x7e"
abbreviation OP_SUBSTR :: opcodetype where "OP_SUBSTR \<equiv> 0x7f"
abbreviation OP_LEFT :: opcodetype where "OP_LEFT \<equiv> 0x80"
abbreviation OP_RIGHT :: opcodetype where "OP_RIGHT \<equiv> 0x81"
abbreviation OP_INVERT :: opcodetype where "OP_INVERT \<equiv> 0x83"
abbreviation OP_AND :: opcodetype where "OP_AND \<equiv> 0x84"
abbreviation OP_OR :: opcodetype where "OP_OR \<equiv> 0x85"
abbreviation OP_XOR :: opcodetype where "OP_XOR \<equiv> 0x86"
abbreviation OP_EQUAL :: opcodetype where "OP_EQUAL \<equiv> 0x87"
abbreviation OP_EQUALVERIFY :: opcodetype where "OP_EQUALVERIFY \<equiv> 0x88"
abbreviation OP_RESERVED1 :: opcodetype where "OP_RESERVED1 \<equiv> 0x89"
abbreviation OP_RESERVED2 :: opcodetype where "OP_RESERVED2 \<equiv> 0x8a"
abbreviation OP_2MUL :: opcodetype where "OP_2MUL \<equiv> 0x8d"
abbreviation OP_2DIV :: opcodetype where "OP_2DIV \<equiv> 0x8e"
abbreviation OP_MUL :: opcodetype where "OP_MUL \<equiv> 0x95"
abbreviation OP_DIV :: opcodetype where "OP_DIV \<equiv> 0x96"
abbreviation OP_MOD :: opcodetype where "OP_MOD \<equiv> 0x97"
abbreviation OP_LSHIFT :: opcodetype where "OP_LSHIFT \<equiv> 0x98"
abbreviation OP_RSHIFT :: opcodetype where "OP_RSHIFT \<equiv> 0x99"
abbreviation OP_HASH160 :: opcodetype where "OP_HASH160 \<equiv> 0xa9"
abbreviation OP_CHECKSIG :: opcodetype where "OP_CHECKSIG \<equiv> 0xac"
abbreviation OP_CHECKMULTISIG :: opcodetype where "OP_CHECKMULTISIG \<equiv> 0xae"
abbreviation OP_NOP1 :: opcodetype where "OP_NOP1 \<equiv> 0xb0"
abbreviation OP_NOP4 :: opcodetype where "OP_NOP4 \<equiv> 0xb3"
abbreviation OP_NOP5 :: opcodetype where "OP_NOP5 \<equiv> 0xb4"
abbreviation OP_NOP6 :: opcodetype where "OP_NOP6 \<equiv> 0xb5"
abbreviation OP_NOP7 :: opcodetype where "OP_NOP7 \<equiv> 0xb6"
abbreviation OP_NOP8 :: opcodetype where "OP_NOP8 \<equiv> 0xb7"
abbreviation OP_NOP9 :: opcodetype where "OP_NOP9 \<equiv> 0xb8"
abbreviation OP_NOP10 :: opcodetype where "OP_NOP10 \<equiv> 0xb9"
abbreviation OP_COLOR :: opcodetype where "OP_COLOR \<equiv> 0xbc"
abbreviation OP_INVALIDOPCODE :: opcodetype where "OP_INVALIDOPCODE \<equiv> 0xff"

text \<open>
  Modelled from the spec: the limits of script/script.h and the key sizes of pubkey.h
  (maximum element size, maximum number of counted opcodes per script, uncompressed and
  compressed public key sizes), which script/standard.cpp uses and does not declare.
\<close>

abbreviation MAX_SCRIPT_ELEMENT_SIZE :: nat where "MAX_SCRIPT_ELEMENT_SIZE \<equiv> 520"
abbreviation MAX_OPS_PER_SCRIPT :: int where "MAX_OPS_PER_SCRIPT \<equiv> 201"
abbreviation PUBLIC_KEY_SIZE :: nat where "PUBLIC_KEY_SIZE \<equiv> 65"
abbreviation COMPRESSED_PUBLIC_KEY_SIZE :: nat where "COMPRESSED_PUBLIC_KEY_SIZE \<equiv> 33"

text \<open>
  The operations of \<open>CPubKey\<close> that the file calls are parameters of the model:
  \<open>ValidSize v\<close> is \<open>CPubKey::ValidSize(v)\<close>, \<open>IsValid v\<close> is
  \<open>CPubKey(v).IsValid()\<close> and \<open>GetID v\<close> is the 20-byte digest
  \<open>CPubKey(v).GetID()\<close>. Every theorem holds for every such triple.
\<close>

record CPubKey_ops =
  ValidSize :: "valtype \<Rightarrow> bool"
  IsValid :: "valtype \<Rightarrow> bool"
  GetID :: "valtype \<Rightarrow> valtype"

text \<open>\<open>valtype(script.begin() + a, script.begin() + b)\<close>.\<close>

definition bytes_range :: "CScript \<Rightarrow> nat \<Rightarrow> nat \<Rightarrow> valtype" where
  "bytes_range script a b = take (b - a) (drop a script)"

section \<open>The script reader\<close>

text \<open>
  Modelled from the spec: the little-endian length fields of the \<open>PUSHDATA2\<close> and
  \<open>PUSHDATA4\<close> forms, as \<open>CScript::GetOp\<close> reads them.
\<close>

definition ReadLE16 :: "CScript \<Rightarrow> nat \<Rightarrow> nat" where
  "ReadLE16 s pc = unat (s ! pc) + 256 * unat (s ! (pc + 1))"

definition ReadLE32 :: "CScript \<Rightarrow> nat \<Rightarrow> nat" where
  "ReadLE32 s pc = unat (s ! pc) + 256 * unat (s ! (pc + 1))
     + 65536 * unat (s ! (pc + 2)) + 16777216 * unat (s ! (pc + 3))"

text \<open>
  Modelled from the spec: the length field of a push, as \<open>CScript::GetOp\<close> reads it:
  the declared size and the position after the field, or \<open>None\<close> when the script ends
  inside the field.
\<close>

definition push_size :: "CScript \<Rightarrow> nat \<Rightarrow> opcodetype \<Rightarrow> (nat \<times> nat) option" where
  "push_size s pc opcode =
     (if opcode < OP_PUSHDATA1 then Some (unat opcode, pc)
      else if opcode = OP_PUSHDATA1 then
        (if length s - pc < 1 then None else Some (unat (s ! pc), pc + 1))
      else if opcode = OP_PUSHDATA2 then
        (if length s - pc < 2 then None else Some (ReadLE16 s pc, pc + 2))
      else
        (if length s - pc < 4 then None else Some (ReadLE32 s pc, pc + 4)))"

text \<open>
  Modelled from the spec: \<open>CScript::GetOp\<close> (the script reader of script/script.h,
  which script/standard.cpp only calls). It reads one token at position \<open>pc\<close>: an
  opcode and, for the push opcodes 0x01 to 0x4b and the three \<open>PUSHDATA\<close> forms of the
  standard opcode stream, the pushed bytes. It fails at the end of the script and when
  the declared length of a push exceeds the remaining bytes. The result is
  (success, new position, opcode, data); on failure the opcode is
  \<open>OP_INVALIDOPCODE\<close> and the data is empty. The two-argument form of \<open>GetOp\<close>
  returns the same without the data.
\<close>

definition GetOp :: "CScript \<Rightarrow> nat \<Rightarrow> bool \<times> nat \<times> opcodetype \<times> valtype" where
  "GetOp s pc =
     (if length s \<le> pc then (False, pc, OP_INVALIDOPCODE, [])
      else
        let opcode = s ! pc; pc1 = pc + 1 in
        if opcode \<le> OP_PUSHDATA4 then
          (case push_size s pc1 opcode of
             None \<Rightarrow> (False, pc1, OP_INVALIDOPCODE, [])
           | Some (nSize, pc2) \<Rightarrow>
               if length s - pc2 < nSize then (False, pc2, OP_INVALIDOPCODE, [])
               else (True, pc2 + nSize, opcode, take nSize (drop pc2 s)))
        else (True, pc1, opcode, []))"

lemma GetOp_advance:
  assumes "GetOp s pc = (True, pc', opcode, data)"
  shows "pc < pc' \<and> pc' \<le> length s"
  using assms
  by (auto simp: GetOp_def Let_def push_size_def split: if_splits option.splits)

text \<open>
  Modelled from the spec: the script shape tests of script/script.h, which
  script/standard.cpp only calls. \<open>IsPayToScriptHash\<close> recognizes \<open>HASH160 push(20) <20 bytes>
  EQUAL\<close>; \<open>IsColoredPayToScriptHash\<close> is the same behind a pushed 33-byte
  ColorIdentifier (kind 1, 2 or 3, at bytes 1 to 33) and the \<open>COLOR\<close> opcode at byte 34:
  58 bytes, with \<open>HASH160\<close> at byte 35, the push of 20 at byte 36, the hash at bytes 37
  to 56 and \<open>EQUAL\<close> at byte 57; \<open>IsWitnessProgram\<close> recognizes a version opcode (\<open>OP_0\<close> or \<open>OP_1\<close> to
  \<open>OP_16\<close>) followed by one push of 2 to 40 bytes (its two outputs are not read by
  this file); \<open>IsPushOnly\<close> holds when every token from the given position on reads
  well and is no opcode above \<open>OP_16\<close>.
\<close>

definition IsPayToScriptHash :: "CScript \<Rightarrow> bool" where
  "IsPayToScriptHash s \<longleftrightarrow>
     length s = 23 \<and> s ! 0 = OP_HASH160 \<and> s ! 1 = 0x14 \<and> s ! 22 = OP_EQUAL"

definition IsColoredPayToScriptHash :: "CScript \<Rightarrow> bool" where
  "IsColoredPayToScriptHash s \<longleftrightarrow>
     length s = 58 \<and> s ! 0 = 0x21 \<and> (s ! 1 = 0x01 \<or> s ! 1 = 0x02 \<or> s ! 1 = 0x03) \<and>
     s ! 34 = OP_COLOR \<and> s ! 35 = OP_HASH160 \<and> s ! 36 = 0x14 \<and> s ! 57 = OP_EQUAL"

definition IsWitnessProgram :: "CScript \<Rightarrow> bool" where
  "IsWitnessProgram s \<longleftrightarrow>
     \<not> (length s < 4 \<or> length s > 42) \<and>
     \<not> (s ! 0 \<noteq> OP_0 \<and> (s ! 0 < OP_1 \<or> s ! 0 > OP_16)) \<and>
     unat (s ! 1) + 2 = length s"

function IsPushOnly :: "CScript \<Rightarrow> nat \<Rightarrow> bool" where
  "IsPushOnly s pc =
     (if pc < length s then
        (case GetOp s pc of (ok, pc', opcode, data) \<Rightarrow>
           if \<not> ok then False
           else if opcode > OP_16 then False
           else IsPushOnly s pc')
      else True)"
  by pat_completeness auto
termination
  by (relation "measure (\<lambda>(s, pc). length s - pc)")
     (auto dest!: GetOp_advance [OF sym])

section \<open>Template matchers\<close>

text \<open>
  A matcher returns its \<open>bool\<close> together with the final values of its reference
  parameters, whose initial values it takes as arguments.
\<close>

definition MatchPayToPubkey :: "CPubKey_ops \<Rightarrow> CScript \<Rightarrow> valtype \<Rightarrow> bool \<times> valtype" where
  "MatchPayToPubkey K script pubkey =
     (if length script = PUBLIC_KEY_SIZE + 2 \<and> unat (script ! 0) = PUBLIC_KEY_SIZE \<and>
         last script = OP_CHECKSIG
      then
        let pubkey = bytes_range script 1 (PUBLIC_KEY_SIZE + 1) in (ValidSize K pubkey, pubkey)
      else if length script = COMPRESSED_PUBLIC_KEY_SIZE + 2 \<and>
         unat (script ! 0) = COMPRESSED_PUBLIC_KEY_SIZE \<and> last script = OP_CHECKSIG
      then
        let pubkey = bytes_range script 1 (COMPRESSED_PUBLIC_KEY_SIZE + 1)
        in (ValidSize K pubkey, pubkey)
      else (False, pubkey))"

definition MatchPayToPubkeyHash :: "CScript \<Rightarrow> valtype \<Rightarrow> bool \<times> valtype" where
  "MatchPayToPubkeyHash script pubkeyhash =
     (if length script = 25 \<and> script ! 0 = OP_DUP \<and> script ! 1 = OP_HASH160 \<and>
         script ! 2 = 20 \<and> script ! 23 = OP_EQUALVERIFY \<and> script ! 24 = OP_CHECKSIG
      then (True, bytes_range script 3 23)
      else (False, pubkeyhash))"

definition MatchColoredPayToPubkeyHash ::
    "CScript \<Rightarrow> valtype \<Rightarrow> valtype \<Rightarrow> bool \<times> valtype \<times> valtype" where
  "MatchColoredPayToPubkeyHash script pubkeyhash colorid =
     (if length script = 60 \<and> script ! 0 = 0x21 \<and>
         (script ! 1 = 0x01 \<or> script ! 1 = 0x02 \<or> script ! 1 = 0x03) \<and>
         script ! 34 = OP_COLOR \<and> script ! 35 = OP_DUP \<and> script ! 36 = OP_HASH160 \<and>
         script ! 37 = 20 \<and> script ! 58 = OP_EQUALVERIFY \<and> script ! 59 = OP_CHECKSIG
      then (True, bytes_range script 38 58, bytes_range script 1 34)
      else (False, pubkeyhash, colorid))"

text \<open>\<open>std::find(script.begin(), script.end(), b)\<close>: the first position of the byte, or the end.\<close>

definition find_byte :: "CScript \<Rightarrow> byte \<Rightarrow> nat" where
  "find_byte script b = length (takeWhile (\<lambda>x. x \<noteq> b) script)"

text \<open>
  The loop of \<open>MatchCustomColoredScript\<close>, from position \<open>iterOpColor\<close>:
  \<open>None\<close> when it returns false from inside the loop, otherwise the position at which
  it leaves the loop (after an \<open>OP_COLOR\<close> token, or the end of the script).
\<close>

function scan_OP_COLOR :: "CScript \<Rightarrow> nat \<Rightarrow> nat option" where
  "scan_OP_COLOR script iterOpColor =
     (if iterOpColor < length script then
        (case GetOp script iterOpColor of (ok, it', opcode, data) \<Rightarrow>
           if \<not> ok then None
           else if opcode = OP_COLOR then Some it'
           else scan_OP_COLOR script it')
      else Some iterOpColor)"
  by pat_completeness auto
termination
  by (relation "measure (\<lambda>(s, pc). length s - pc)")
     (auto dest!: GetOp_advance [OF sym])

text \<open>
  The result is (return value, final value of the reference parameter \<open>colorid\<close>,
  final value of the local vector \<open>colorId\<close>). The function assigns to the local only.
\<close>

definition MatchCustomColoredScript :: "CScript \<Rightarrow> valtype \<Rightarrow> bool \<times> valtype \<times> valtype" where
  "MatchCustomColoredScript script colorid =
     (let iterColorId1 = find_byte script 0x21 in
      case scan_OP_COLOR script 0 of
        None \<Rightarrow> (False, colorid, [])
      | Some iterOpColor \<Rightarrow>
          if iterOpColor = length script then (False, colorid, [])
          else if iterColorId1 \<noteq> length script \<and> int iterOpColor - int iterColorId1 = 34
          then (True, colorid, bytes_range script (iterColorId1 + 1) (iterColorId1 + 34))
          else (False, colorid, []))"

definition IsSmallInteger :: "opcodetype \<Rightarrow> bool" where
  "IsSmallInteger opcode \<longleftrightarrow> opcode \<ge> OP_1 \<and> opcode \<le> OP_16"

text \<open>
  Modelled from the spec: \<open>CScript::DecodeOP_N\<close> of script/script.h, the number a
  small-integer opcode encodes (\<open>OP_0\<close> is 0, \<open>OP_1\<close> to \<open>OP_16\<close> are 1 to 16).
  This file calls it on small-integer opcodes only.
\<close>

definition DecodeOP_N :: "opcodetype \<Rightarrow> nat" where
  "DecodeOP_N opcode = (if opcode = OP_0 then 0 else unat opcode - (unat OP_1 - 1))"

text \<open>
  The \<open>while\<close> loop of \<open>MatchMultisig\<close>: from the values of \<open>it\<close> and
  \<open>pubkeys\<close> before a test of the loop condition to the values of \<open>it\<close>,
  \<open>opcode\<close> and \<open>pubkeys\<close> when the condition fails.
\<close>

function MatchMultisig_loop ::
    "CPubKey_ops \<Rightarrow> CScript \<Rightarrow> nat \<Rightarrow> valtype list \<Rightarrow> nat \<times> opcodetype \<times> valtype list" where
  "MatchMultisig_loop K script it pubkeys =
     (case GetOp script it of (ok, it', opcode, data) \<Rightarrow>
        if ok \<and> ValidSize K data then MatchMultisig_loop K script it' (pubkeys @ [data])
        else (it', opcode, pubkeys))"
  by pat_completeness auto
termination
  by (relation "measure (\<lambda>(K, s, pc, ks). length s - pc)")
     (auto dest!: GetOp_advance [OF sym])

definition MatchMultisig ::
    "CPubKey_ops \<Rightarrow> CScript \<Rightarrow> nat \<Rightarrow> valtype list \<Rightarrow> bool \<times> nat \<times> valtype list" where
  "MatchMultisig K script required pubkeys =
     (if length script < 1 \<or> last script \<noteq> OP_CHECKMULTISIG then (False, required, pubkeys)
      else
        case GetOp script 0 of (ok, it, opcode, data) \<Rightarrow>
          if \<not> ok \<or> \<not> IsSmallInteger opcode then (False, required, pubkeys)
          else
            let required = DecodeOP_N opcode in
            case MatchMultisig_loop K script it pubkeys of (it, opcode, pubkeys) \<Rightarrow>
              if \<not> IsSmallInteger opcode then (False, required, pubkeys)
              else
                let keys = DecodeOP_N opcode in
                if length pubkeys \<noteq> keys \<or> keys < required then (False, required, pubkeys)
                else (it + 1 = length script, required, pubkeys))"

section \<open>The syntax check\<close>

definition disabled_opcode :: "opcodetype \<Rightarrow> bool" where
  "disabled_opcode opcode \<longleftrightarrow>
     opcode = OP_CAT \<or> opcode = OP_SUBSTR \<or> opcode = OP_LEFT \<or> opcode = OP_RIGHT \<or>
     opcode = OP_INVERT \<or> opcode = OP_AND \<or> opcode = OP_OR \<or> opcode = OP_XOR \<or>
     opcode = OP_2MUL \<or> opcode = OP_2DIV \<or> opcode = OP_MUL \<or> opcode = OP_DIV \<or>
     opcode = OP_MOD \<or> opcode = OP_LSHIFT \<or> opcode = OP_RSHIFT \<or> opcode = OP_VER \<or>
     opcode = OP_VERIF \<or> opcode = OP_VERNOTIF \<or> opcode = OP_RESERVED \<or>
     opcode = OP_RESERVED1 \<or> opcode = OP_RESERVED2 \<or> opcode = OP_NOP1 \<or>
     opcode = OP_NOP4 \<or> opcode = OP_NOP5 \<or> opcode = OP_NOP6 \<or> opcode = OP_NOP7 \<or>
     opcode = OP_NOP8 \<or> opcode = OP_NOP9 \<or> opcode = OP_NOP10"

text \<open>The loop of \<open>CheckScriptSyntax\<close> from position \<open>it\<close> with counter \<open>nOpCount\<close>.\<close>

function CheckScriptSyntax_loop :: "CScript \<Rightarrow> nat \<Rightarrow> int \<Rightarrow> bool" where
  "CheckScriptSyntax_loop script it nOpCount =
     (if it < length script then
        (case GetOp script it of (ok, it', opcode, data) \<Rightarrow>
           if \<not> ok then False
           else if length data > MAX_SCRIPT_ELEMENT_SIZE then False
           else if opcode > OP_16 \<and> nOpCount + 1 > MAX_OPS_PER_SCRIPT then False
           else if disabled_opcode opcode then False
           else CheckScriptSyntax_loop script it'
                  (if opcode > OP_16 then nOpCount + 1 else nOpCount))
      else True)"
  by pat_completeness auto
termination
  by (relation "measure (\<lambda>(s, pc, n). length s - pc)")
     (auto dest!: GetOp_advance [OF sym])

definition CheckScriptSyntax :: "CScript \<Rightarrow> bool" where
  "CheckScriptSyntax script = CheckScriptSyntax_loop script 0 0"

section \<open>Solver\<close>

text \<open>
  The result is (return value, \<open>typeRet\<close>, \<open>vSolutionsRet\<close>): every path assigns
  \<open>typeRet\<close>, and \<open>vSolutionsRet\<close> is cleared on entry. The local \<open>required\<close> is
  not initialised in the source and is read only after \<open>MatchMultisig\<close> has assigned
  it; it starts as 0 here.
\<close>

definition Solver :: "CPubKey_ops \<Rightarrow> CScript \<Rightarrow> bool \<times> txnouttype \<times> valtype list" where
  "Solver K scriptPubKey =
     (if IsPayToScriptHash scriptPubKey then
        (True, TX_SCRIPTHASH, [bytes_range scriptPubKey 2 22])
      else if IsColoredPayToScriptHash scriptPubKey then
        (True, TX_COLOR_SCRIPTHASH,
         [bytes_range scriptPubKey 37 57, bytes_range scriptPubKey 1 34])
      else if IsWitnessProgram scriptPubKey then (True, TX_NONSTANDARD, [])
      else if length scriptPubKey \<ge> 1 \<and> scriptPubKey ! 0 = OP_RETURN \<and>
              IsPushOnly scriptPubKey 1 then (True, TX_NULL_DATA, [])
      else
        case MatchPayToPubkey K scriptPubKey [] of (m1, data) \<Rightarrow>
        if m1 then (True, TX_PUBKEY, [data])
        else
          case MatchPayToPubkeyHash scriptPubKey data of (m2, data) \<Rightarrow>
          if m2 then (True, TX_PUBKEYHASH, [data])
          else
            case MatchColoredPayToPubkeyHash scriptPubKey data [] of (m3, data, colorId) \<Rightarrow>
            if m3 then (True, TX_COLOR_PUBKEYHASH, [data, colorId])
            else
              case MatchMultisig K scriptPubKey 0 [] of (m4, required, keys) \<Rightarrow>
              if m4 then
                (True, TX_MULTISIG,
                 [[of_nat required]] @ keys @ [[of_nat (length keys)]])
              else if \<not> CheckScriptSyntax scriptPubKey then (False, TX_NONSTANDARD, [])
              else (True, TX_CUSTOM, []))"

section \<open>Destination extraction\<close>

text \<open>
  Element \<open>i\<close> of a vector; reading outside the vector is undefined in C++ and is
  \<open>None\<close> here.
\<close>

definition at :: "'a list \<Rightarrow> nat \<Rightarrow> 'a option" where
  "at xs i = (if i < length xs then Some (xs ! i) else None)"

text \<open>
  Modelled from the spec: the constructor of a \<open>uint160\<close> from a byte vector
  (uint256.h). A Hash160 is exactly 20 bytes; a vector of another length gives no value
  (\<open>None\<close>, the program stops).
\<close>

definition uint160 :: "valtype \<Rightarrow> valtype option" where
  "uint160 vch = (if length vch = 20 then Some vch else None)"

text \<open>
  The result is \<open>None\<close> when the call does not return (an out-of-range read or a
  malformed hash), otherwise (return value, \<open>addressRet\<close>).
\<close>

definition ExtractDestination ::
    "CPubKey_ops \<Rightarrow> CScript \<Rightarrow> CTxDestination \<Rightarrow> (bool \<times> CTxDestination) option" where
  "ExtractDestination K scriptPubKey addressRet =
     (case Solver K scriptPubKey of (ok, whichType, vSolutions) \<Rightarrow>
        if \<not> ok then Some (False, addressRet)
        else if whichType = TX_PUBKEY then
          do {
            pubKey \<leftarrow> at vSolutions 0;
            if \<not> IsValid K pubKey then Some (False, addressRet)
            else Some (True, CKeyID (GetID K pubKey))
          }
        else if whichType = TX_PUBKEYHASH \<or> whichType = TX_COLOR_PUBKEYHASH then
          do {
            v \<leftarrow> at vSolutions 0;
            h \<leftarrow> uint160 v;
            Some (True, CKeyID h)
          }
        else if whichType = TX_SCRIPTHASH \<or> whichType = TX_COLOR_SCRIPTHASH then
          do {
            v \<leftarrow> at vSolutions 0;
            h \<leftarrow> uint160 v;
            Some (True, CScriptID h)
          }
        else Some (False, addressRet))"

text \<open>
  The \<open>for\<close> loop of \<open>ExtractDestinations\<close> from index \<open>i\<close>; it is entered with a
  non-empty \<open>vSolutions\<close>, so that \<open>vSolutions.size()-1\<close> does not wrap around.
\<close>

function ExtractDestinations_loop ::
    "CPubKey_ops \<Rightarrow> valtype list \<Rightarrow> nat \<Rightarrow> CTxDestination list \<Rightarrow> CTxDestination list" where
  "ExtractDestinations_loop K vSolutions i addressRet =
     (if i < length vSolutions - 1 then
        (let pubKey = vSolutions ! i in
         if \<not> IsValid K pubKey then ExtractDestinations_loop K vSolutions (i + 1) addressRet
         else ExtractDestinations_loop K vSolutions (i + 1)
                (addressRet @ [CKeyID (GetID K pubKey)]))
      else addressRet)"
  by pat_completeness auto
termination
  by (relation "measure (\<lambda>(K, v, i, a). length v - 1 - i)") auto

text \<open>
  The result is \<open>None\<close> when the call does not return, otherwise
  (return value, \<open>typeRet\<close>, \<open>addressRet\<close>, \<open>nRequiredRet\<close>).
\<close>

definition ExtractDestinations ::
    "CPubKey_ops \<Rightarrow> CScript \<Rightarrow> txnouttype \<Rightarrow> CTxDestination list \<Rightarrow> int \<Rightarrow>
       (bool \<times> txnouttype \<times> CTxDestination list \<times> int) option" where
  "ExtractDestinations K scriptPubKey typeRet addressRet nRequiredRet =
     (let addressRet = []; typeRet = TX_NONSTANDARD in
      case Solver K scriptPubKey of (ok, typeRet, vSolutions) \<Rightarrow>
        if \<not> ok then Some (False, typeRet, addressRet, nRequiredRet)
        else if typeRet = TX_NULL_DATA then Some (False, typeRet, addressRet, nRequiredRet)
        else if typeRet = TX_MULTISIG then
          do {
            front \<leftarrow> at vSolutions 0;
            b \<leftarrow> at front 0;
            let nRequiredRet = uint b;
            let addressRet = ExtractDestinations_loop K vSolutions 1 addressRet;
            if addressRet = [] then Some (False, typeRet, addressRet, nRequiredRet)
            else Some (True, typeRet, addressRet, nRequiredRet)
          }
        else
          do {
            let nRequiredRet = 1;
            (ok, address) \<leftarrow> ExtractDestination K scriptPubKey CNoDestination;
            if \<not> ok then Some (False, typeRet, addressRet, nRequiredRet)
            else Some (True, typeRet, addressRet @ [address], nRequiredRet)
          })"

section \<open>Script construction\<close>

text \<open>
  Modelled from the spec: the two \<open>operator<<\<close> of \<open>CScript\<close> (script/script.h):
  appending an opcode, and appending a push of a byte vector (a direct push below 0x4c
  bytes, the \<open>PUSHDATA\<close> forms of the standard opcode stream above).
\<close>

definition push_opcode :: "CScript \<Rightarrow> opcodetype \<Rightarrow> CScript" where
  "push_opcode script opcode = script @ [opcode]"

definition push_vector :: "CScript \<Rightarrow> valtype \<Rightarrow> CScript" where
  "push_vector script b =
     (if length b < unat OP_PUSHDATA1 then script @ [of_nat (length b)] @ b
      else if length b \<le> 0xff then script @ [OP_PUSHDATA1, of_nat (length b)] @ b
      else if length b \<le> 0xffff then
        script @ [OP_PUSHDATA2, of_nat (length b mod 256), of_nat (length b div 256)] @ b
      else
        script @ [OP_PUSHDATA4, of_nat (length b mod 256), of_nat (length b div 256 mod 256),
                  of_nat (length b div 65536 mod 256), of_nat (length b div 16777216 mod 256)] @ b)"

text \<open>\<open>CScriptVisitor\<close>: the visitor's return value and the script it leaves.\<close>

fun CScriptVisitor :: "CTxDestination \<Rightarrow> bool \<times> CScript" where
  "CScriptVisitor CNoDestination = (False, [])"
| "CScriptVisitor (CKeyID keyID) =
     (True, push_opcode (push_opcode (push_vector (push_opcode (push_opcode [] OP_DUP) OP_HASH160)
              keyID) OP_EQUALVERIFY) OP_CHECKSIG)"
| "CScriptVisitor (CScriptID scriptID) =
     (True, push_opcode (push_vector (push_opcode [] OP_HASH160) scriptID) OP_EQUAL)"

definition GetScriptForDestination :: "CTxDestination \<Rightarrow> CScript" where
  "GetScriptForDestination dest = snd (CScriptVisitor dest)"

section \<open>Notions of the specification\<close>

text \<open>
  The opcode stream of a script from position \<open>pc\<close>: the tokens that successive calls
  of \<open>GetOp\<close> read up to the end of the script, or \<open>None\<close> when one of the reads
  fails (tokenization failure).
\<close>

function tokens :: "CScript \<Rightarrow> nat \<Rightarrow> (opcodetype \<times> valtype) list option" where
  "tokens script pc =
     (if pc < length script then
        (case GetOp script pc of (ok, pc', opcode, data) \<Rightarrow>
           if ok then map_option ((#) (opcode, data)) (tokens script pc') else None)
      else Some [])"
  by pat_completeness auto
termination
  by (relation "measure (\<lambda>(s, pc). length s - pc)")
     (auto dest!: GetOp_advance [OF sym])

text \<open>The number of tokens that count towards the limit of opcodes: those above \<open>OP_16\<close>.\<close>

definition counted :: "(opcodetype \<times> valtype) list \<Rightarrow> int" where
  "counted toks = int (length (filter (\<lambda>(opcode, data). opcode > OP_16) toks))"

text \<open>
  The form of a multisig script with threshold \<open>required\<close> and keys \<open>pubkeys\<close>: the
  threshold and the number of keys are in range, and the opcode stream is a
  small-integer opcode for the threshold, one push per key, a small-integer opcode for
  the number of keys and, last, \<open>OP_CHECKMULTISIG\<close>.
\<close>

definition multisig_form :: "CPubKey_ops \<Rightarrow> CScript \<Rightarrow> nat \<Rightarrow> valtype list \<Rightarrow> bool" where
  "multisig_form K script required pubkeys \<longleftrightarrow>
     1 \<le> required \<and> required \<le> length pubkeys \<and> length pubkeys \<le> 16 \<and>
     list_all (ValidSize K) pubkeys \<and>
     script \<noteq> [] \<and> last script = OP_CHECKMULTISIG \<and>
     (\<exists>opr ops opn.
        IsSmallInteger opr \<and> DecodeOP_N opr = required \<and>
        IsSmallInteger opn \<and> DecodeOP_N opn = length pubkeys \<and>
        length ops = length pubkeys \<and>
        tokens script 0 =
          Some ((opr, []) # zip ops pubkeys @ [(opn, []), (OP_CHECKMULTISIG, [])]))"


text \<open>Steps 1 to 8 of the Solver: the script matches none of the templates.\<close>

definition no_template :: "CPubKey_ops \<Rightarrow> CScript \<Rightarrow> bool" where
  "no_template K script \<longleftrightarrow>
     \<not> IsPayToScriptHash script \<and>
     \<not> IsColoredPayToScriptHash script \<and>
     \<not> IsWitnessProgram script \<and>
     \<not> (length script \<ge> 1 \<and> script ! 0 = OP_RETURN \<and> IsPushOnly script 1) \<and>
     \<not> fst (MatchPayToPubkey K script []) \<and>
     \<not> fst (MatchPayToPubkeyHash script []) \<and>
     \<not> fst (MatchColoredPayToPubkeyHash script [] []) \<and>
     \<not> fst (MatchMultisig K script 0 [])"

section \<open>A key interface to run the model on\<close>

text \<open>
  One instance of the \<open>CPubKey\<close> operations, for evaluating the model on concrete
  scripts: a key has a valid size when it is 33 or 65 bytes long, it is valid when its
  size is valid and its first byte is the matching format tag, and the digest is stood
  in for by the first 20 bytes of the key.
\<close>

definition example_keys :: CPubKey_ops where
  "example_keys =
     \<lparr>ValidSize = (\<lambda>v. length v = 33 \<or> length v = 65),
      IsValid = (\<lambda>v. (length v = 33 \<and> (hd v = 2 \<or> hd v = 3)) \<or>
                      (length v = 65 \<and> (hd v = 4 \<or> hd v = 6 \<or> hd v = 7))),
      GetID = take 20\<rparr>"

definition example_hash :: valtype where
  "example_hash = replicate 20 0xab"

text \<open>A color identifier of kind 1.\<close>

definition example_colorid :: valtype where
  "example_colorid = 1 # replicate 32 0x0c"

text \<open>A 33-byte key with the format tag \<open>tag\<close>.\<close>

definition example_key :: "byte \<Rightarrow> valtype" where
  "example_key tag = tag # replicate 32 0x07"

section \<open>Properties of the Solver\<close>

declare IsPushOnly.simps [simp del]
declare scan_OP_COLOR.simps [simp del]
declare MatchMultisig_loop.simps [simp del]
declare CheckScriptSyntax_loop.simps [simp del]
declare ExtractDestinations_loop.simps [simp del]
declare tokens.simps [simp del]

text \<open>
  Whether a matcher matches does not depend on the initial values of its reference
  parameters.
\<close>

lemma MatchPayToPubkey_fst:
  "fst (MatchPayToPubkey K script pubkey) = fst (MatchPayToPubkey K script [])"
  by (simp add: MatchPayToPubkey_def Let_def)

lemma MatchPayToPubkeyHash_fst:
  "fst (MatchPayToPubkeyHash script pubkeyhash) = fst (MatchPayToPubkeyHash script [])"
  by (simp add: MatchPayToPubkeyHash_def)

lemma MatchColoredPayToPubkeyHash_fst:
  "fst (MatchColoredPayToPubkeyHash script pubkeyhash colorid) =
   fst (MatchColoredPayToPubkeyHash script [] [])"
  by (simp add: MatchColoredPayToPubkeyHash_def)

text \<open>The results of the Solver, tag by tag.\<close>

lemma Solver_shape:
  assumes "Solver K s = (ok, t, sols)"
  shows "(t = TX_SCRIPTHASH \<and> ok \<and> IsPayToScriptHash s \<and> sols = [bytes_range s 2 22]) \<or>
         (t = TX_COLOR_SCRIPTHASH \<and> ok \<and> IsColoredPayToScriptHash s \<and>
            sols = [bytes_range s 37 57, bytes_range s 1 34]) \<or>
         (t = TX_NONSTANDARD \<and> sols = []) \<or>
         (t = TX_NULL_DATA \<and> ok \<and> sols = []) \<or>
         (t = TX_PUBKEY \<and> ok \<and> (\<exists>key. sols = [key] \<and> ValidSize K key)) \<or>
         (t = TX_PUBKEYHASH \<and> ok \<and> length s = 25 \<and> sols = [bytes_range s 3 23]) \<or>
         (t = TX_COLOR_PUBKEYHASH \<and> ok \<and> fst (MatchColoredPayToPubkeyHash s [] []) \<and>
            sols = [bytes_range s 38 58, bytes_range s 1 34]) \<or>
         (t = TX_MULTISIG \<and> ok \<and>
            (\<exists>required keys. MatchMultisig K s 0 [] = (True, required, keys) \<and>
               sols = [[of_nat required]] @ keys @ [[of_nat (length keys)]])) \<or>
         (t = TX_CUSTOM \<and> ok \<and> sols = [])"
  using assms unfolding Solver_def
  by (auto simp: MatchPayToPubkey_def MatchPayToPubkeyHash_def MatchColoredPayToPubkeyHash_def Let_def
      split: if_splits prod.splits)


text \<open>The count a small-integer opcode encodes is between 1 and 16.\<close>

lemma IsSmallInteger_DecodeOP_N:
  assumes "IsSmallInteger opcode"
  shows "1 \<le> DecodeOP_N opcode \<and> DecodeOP_N opcode \<le> 16"
  using assms
  by (auto simp: IsSmallInteger_def DecodeOP_N_def word_le_nat_alt)

lemma MatchMultisig_required_range:
  assumes "MatchMultisig K script r0 ks0 = (True, required, keys)"
  shows "1 \<le> required \<and> required \<le> 16"
  using assms IsSmallInteger_DecodeOP_N
  by (auto simp: MatchMultisig_def Let_def split: if_splits prod.splits)

text \<open>Where the Solver leaves a first solution, and when it is 20 bytes long.\<close>

lemma Solver_first_solution:
  assumes "Solver K script = (ok, t, sols)"
  shows "(t \<in> {TX_PUBKEY, TX_PUBKEYHASH, TX_COLOR_PUBKEYHASH, TX_SCRIPTHASH,
                 TX_COLOR_SCRIPTHASH} \<longrightarrow> ok \<and> sols \<noteq> []) \<and>
         (t \<in> {TX_PUBKEYHASH, TX_COLOR_PUBKEYHASH, TX_SCRIPTHASH, TX_COLOR_SCRIPTHASH} \<longrightarrow>
            length (hd sols) = 20)"
  using Solver_shape [OF assms]
proof (elim disjE conjE exE)
  assume "t = TX_SCRIPTHASH" "ok" "IsPayToScriptHash script" "sols = [bytes_range script 2 22]"
  then show ?thesis by (simp add: bytes_range_def IsPayToScriptHash_def)
next
  assume "t = TX_COLOR_SCRIPTHASH" "ok" "IsColoredPayToScriptHash script"
    "sols = [bytes_range script 37 57, bytes_range script 1 34]"
  then show ?thesis by (simp add: bytes_range_def IsColoredPayToScriptHash_def)
next
  assume "t = TX_PUBKEYHASH" "ok" "length script = 25" "sols = [bytes_range script 3 23]"
  then show ?thesis by (simp add: bytes_range_def)
next
  assume "t = TX_COLOR_PUBKEYHASH" "ok" "fst (MatchColoredPayToPubkeyHash script [] [])"
    "sols = [bytes_range script 38 58, bytes_range script 1 34]"
  then show ?thesis
    by (simp add: bytes_range_def MatchColoredPayToPubkeyHash_def split: if_splits)
qed simp_all

lemma ExtractDestination_returns:
  assumes "Solver K script = (ok, t, sols)"
  shows "\<exists>b d. ExtractDestination K script a = Some (b, d)"
  using Solver_first_solution [OF assms]
  by (cases t; cases sols) (auto simp: ExtractDestination_def assms at_def uint160_def)


text \<open>
  C9: a script that \<open>IsWitnessProgram\<close> recognizes, and that neither script-hash shortcut
  has taken before, makes the Solver return true with the tag \<open>TX_NONSTANDARD\<close> and an
  empty solution list: no hard failure, and the program is not decoded.
\<close>

theorem Solver_witness_program:
  assumes "IsWitnessProgram script"
    and "\<not> IsPayToScriptHash script"
    and "\<not> IsColoredPayToScriptHash script"
  shows "Solver K script = (True, TX_NONSTANDARD, [])"
  using assms by (simp add: Solver_def)

theorem Solver_witness_program_witness:
  "IsWitnessProgram [OP_0, 2, 0xaa, 0xbb] \<and>
   \<not> IsPayToScriptHash [OP_0, 2, 0xaa, 0xbb] \<and>
   \<not> IsColoredPayToScriptHash [OP_0, 2, 0xaa, 0xbb] \<and>
   (\<forall>K. Solver K [OP_0, 2, 0xaa, 0xbb] = (True, TX_NONSTANDARD, []))"
proof -
  have w: "IsWitnessProgram [OP_0, 2, 0xaa, 0xbb]"
    by (simp add: IsWitnessProgram_def)
  have p: "\<not> IsPayToScriptHash [OP_0, 2, 0xaa, 0xbb]"
    by (simp add: IsPayToScriptHash_def)
  have c: "\<not> IsColoredPayToScriptHash [OP_0, 2, 0xaa, 0xbb]"
    by (simp add: IsColoredPayToScriptHash_def)
  show ?thesis
    using w p c Solver_witness_program [OF w p c] by simp
qed

text \<open>
  C3: for a script that matches no template, the Solver returns false with the tag
  \<open>TX_NONSTANDARD\<close> and an empty solution list when \<open>CheckScriptSyntax\<close> rejects the
  script, and true with the tag \<open>TX_CUSTOM\<close> and an empty solution list when it
  accepts the script.
\<close>

theorem Solver_fallback:
  assumes "no_template K script"
  shows "Solver K script =
           (if CheckScriptSyntax script then (True, TX_CUSTOM, [])
            else (False, TX_NONSTANDARD, []))"
proof -
  have a: "\<not> fst (MatchPayToPubkey K script [])"
    and c: "\<not> fst (MatchColoredPayToPubkeyHash script
                (snd (MatchPayToPubkeyHash script (snd (MatchPayToPubkey K script [])))) [])"
    and b: "\<not> fst (MatchPayToPubkeyHash script (snd (MatchPayToPubkey K script [])))"
    and d: "\<not> fst (MatchMultisig K script 0 [])"
    using assms MatchPayToPubkeyHash_fst [of script "snd (MatchPayToPubkey K script [])"]
      MatchColoredPayToPubkeyHash_fst [of script
        "snd (MatchPayToPubkeyHash script (snd (MatchPayToPubkey K script [])))" "[]"]
    by (simp_all add: no_template_def)
  from assms have e: "\<not> IsPayToScriptHash script" "\<not> IsColoredPayToScriptHash script"
    "\<not> IsWitnessProgram script"
    "\<not> (length script \<ge> 1 \<and> script ! 0 = OP_RETURN \<and> IsPushOnly script 1)"
    by (simp_all add: no_template_def)
  show ?thesis
    unfolding Solver_def using a b c d e
    by (simp add: case_prod_beta)
qed

theorem Solver_fallback_witness:
  "no_template example_keys [OP_DUP, OP_CAT] \<and>
   \<not> CheckScriptSyntax [OP_DUP, OP_CAT] \<and>
   Solver example_keys [OP_DUP, OP_CAT] = (False, TX_NONSTANDARD, []) \<and>
   no_template example_keys [OP_DUP, OP_DUP] \<and>
   CheckScriptSyntax [OP_DUP, OP_DUP] \<and>
   Solver example_keys [OP_DUP, OP_DUP] = (True, TX_CUSTOM, []) \<and>
   no_template example_keys
     ([0x21] @ example_colorid @ [OP_COLOR, OP_HASH160, 20] @ replicate 19 0xab @ [OP_EQUAL]) \<and>
   CheckScriptSyntax
     ([0x21] @ example_colorid @ [OP_COLOR, OP_HASH160, 20] @ replicate 19 0xab @ [OP_EQUAL]) \<and>
   Solver example_keys
     ([0x21] @ example_colorid @ [OP_COLOR, OP_HASH160, 20] @ replicate 19 0xab @ [OP_EQUAL]) =
     (True, TX_CUSTOM, []) \<and>
   \<not> no_template example_keys
     ([0x21] @ example_colorid @ [OP_COLOR, OP_HASH160, 20] @ example_hash @ [OP_EQUAL]) \<and>
   Solver example_keys
     ([0x21] @ example_colorid @ [OP_COLOR, OP_HASH160, 20] @ example_hash @ [OP_EQUAL]) =
     (True, TX_COLOR_SCRIPTHASH, [example_hash, example_colorid])"
proof -
  have n1: "no_template example_keys [OP_DUP, OP_CAT]" by code_simp
  have s1: "\<not> CheckScriptSyntax [OP_DUP, OP_CAT]" by code_simp
  have n2: "no_template example_keys [OP_DUP, OP_DUP]" by code_simp
  have s2: "CheckScriptSyntax [OP_DUP, OP_DUP]" by code_simp
  have n3: "no_template example_keys
              ([0x21] @ example_colorid @ [OP_COLOR, OP_HASH160, 20] @ replicate 19 0xab @ [OP_EQUAL])"
    by code_simp
  have s3: "CheckScriptSyntax
              ([0x21] @ example_colorid @ [OP_COLOR, OP_HASH160, 20] @ replicate 19 0xab @ [OP_EQUAL])"
    by code_simp
  have n4: "\<not> no_template example_keys
              ([0x21] @ example_colorid @ [OP_COLOR, OP_HASH160, 20] @ example_hash @ [OP_EQUAL])"
    by code_simp
  have s4: "Solver example_keys
              ([0x21] @ example_colorid @ [OP_COLOR, OP_HASH160, 20] @ example_hash @ [OP_EQUAL]) =
              (True, TX_COLOR_SCRIPTHASH, [example_hash, example_colorid])"
    by code_simp
  show ?thesis
    using n1 s1 n2 s2 n3 s3 n4 s4
      Solver_fallback [OF n1] Solver_fallback [OF n2] Solver_fallback [OF n3]
    by simp
qed

section \<open>Properties of the destination extraction\<close>

text \<open>
  C4: \<open>ExtractDestination\<close> by tag of the Solver's result. It always returns. On
  \<open>TX_PUBKEY\<close> it succeeds with the identity derived from the key exactly when the
  solution is a valid public key; on \<open>TX_PUBKEYHASH\<close> and \<open>TX_COLOR_PUBKEYHASH\<close> it
  succeeds with the key hash made of the first solution, which is 20 bytes long; on
  \<open>TX_SCRIPTHASH\<close> and \<open>TX_COLOR_SCRIPTHASH\<close> it succeeds with the script hash made of
  the first solution, 20 bytes long; on every other tag it fails and leaves
  \<open>addressRet\<close> as it was.
\<close>

theorem ExtractDestination_by_tag:
  assumes "Solver K script = (ok, whichType, vSolutions)"
  shows "ExtractDestination K script addressRet =
           Some (if whichType = TX_PUBKEY then
                   (if IsValid K (hd vSolutions) then (True, CKeyID (GetID K (hd vSolutions)))
                    else (False, addressRet))
                 else if whichType = TX_PUBKEYHASH \<or> whichType = TX_COLOR_PUBKEYHASH then
                   (True, CKeyID (hd vSolutions))
                 else if whichType = TX_SCRIPTHASH \<or> whichType = TX_COLOR_SCRIPTHASH then
                   (True, CScriptID (hd vSolutions))
                 else (False, addressRet)) \<and>
         (whichType \<in> {TX_PUBKEY, TX_PUBKEYHASH, TX_COLOR_PUBKEYHASH, TX_SCRIPTHASH,
                        TX_COLOR_SCRIPTHASH} \<longrightarrow> vSolutions \<noteq> []) \<and>
         (whichType \<in> {TX_PUBKEYHASH, TX_COLOR_PUBKEYHASH, TX_SCRIPTHASH,
                        TX_COLOR_SCRIPTHASH} \<longrightarrow> length (hd vSolutions) = 20)"
  using Solver_first_solution [OF assms]
  by (cases whichType; cases vSolutions)
     (simp_all add: ExtractDestination_def assms at_def uint160_def)

theorem ExtractDestination_by_tag_witness:
  "Solver example_keys ([OP_DUP, OP_HASH160, 20] @ example_hash @ [OP_EQUALVERIFY, OP_CHECKSIG]) =
     (True, TX_PUBKEYHASH, [example_hash]) \<and>
   ExtractDestination example_keys
     ([OP_DUP, OP_HASH160, 20] @ example_hash @ [OP_EQUALVERIFY, OP_CHECKSIG]) CNoDestination =
     Some (True, CKeyID example_hash) \<and>
   Solver example_keys ([33] @ example_key 2 @ [OP_CHECKSIG]) =
     (True, TX_PUBKEY, [example_key 2]) \<and>
   ExtractDestination example_keys ([33] @ example_key 2 @ [OP_CHECKSIG]) CNoDestination =
     Some (True, CKeyID (2 # replicate 19 0x07)) \<and>
   Solver example_keys ([33] @ example_key 9 @ [OP_CHECKSIG]) =
     (True, TX_PUBKEY, [example_key 9]) \<and>
   ExtractDestination example_keys ([33] @ example_key 9 @ [OP_CHECKSIG]) CNoDestination =
     Some (False, CNoDestination) \<and>
   Solver example_keys [OP_RETURN, 1, 0x2a] = (True, TX_NULL_DATA, []) \<and>
   ExtractDestination example_keys [OP_RETURN, 1, 0x2a] CNoDestination =
     Some (False, CNoDestination) \<and>
   Solver example_keys
     ([0x21] @ example_colorid @ [OP_COLOR, OP_HASH160, 20] @ example_hash @ [OP_EQUAL]) =
     (True, TX_COLOR_SCRIPTHASH, [example_hash, example_colorid]) \<and>
   ExtractDestination example_keys
     ([0x21] @ example_colorid @ [OP_COLOR, OP_HASH160, 20] @ example_hash @ [OP_EQUAL])
     CNoDestination = Some (True, CScriptID example_hash) \<and>
   Solver example_keys
     ([0x21] @ example_colorid @ [OP_COLOR, OP_DUP, OP_HASH160, 20] @ example_hash @
        [OP_EQUALVERIFY, OP_CHECKSIG]) =
     (True, TX_COLOR_PUBKEYHASH, [example_hash, example_colorid]) \<and>
   ExtractDestination example_keys
     ([0x21] @ example_colorid @ [OP_COLOR, OP_DUP, OP_HASH160, 20] @ example_hash @
        [OP_EQUALVERIFY, OP_CHECKSIG])
     CNoDestination = Some (True, CKeyID example_hash) \<and>
   Solver example_keys ([OP_HASH160, 20] @ example_hash @ [OP_EQUAL]) = (True, TX_SCRIPTHASH, [example_hash]) \<and>
   ExtractDestination example_keys ([OP_HASH160, 20] @ example_hash @ [OP_EQUAL]) CNoDestination =
     Some (True, CScriptID example_hash)"
proof -
  have s5: "Solver example_keys
              ([0x21] @ example_colorid @ [OP_COLOR, OP_HASH160, 20] @ example_hash @ [OP_EQUAL]) =
              (True, TX_COLOR_SCRIPTHASH, [example_hash, example_colorid])"
    by code_simp
  have s6: "Solver example_keys
              ([0x21] @ example_colorid @ [OP_COLOR, OP_DUP, OP_HASH160, 20] @ example_hash @
        [OP_EQUALVERIFY, OP_CHECKSIG]) =
              (True, TX_COLOR_PUBKEYHASH, [example_hash, example_colorid])"
    by code_simp
  have s7: "Solver example_keys ([OP_HASH160, 20] @ example_hash @ [OP_EQUAL]) = (True, TX_SCRIPTHASH, [example_hash])"
    by code_simp
  have s1: "Solver example_keys
              ([OP_DUP, OP_HASH160, 20] @ example_hash @ [OP_EQUALVERIFY, OP_CHECKSIG]) =
              (True, TX_PUBKEYHASH, [example_hash])"
    by code_simp
  have s2: "Solver example_keys ([33] @ example_key 2 @ [OP_CHECKSIG]) =
              (True, TX_PUBKEY, [example_key 2])"
    by code_simp
  have s3: "Solver example_keys ([33] @ example_key 9 @ [OP_CHECKSIG]) =
              (True, TX_PUBKEY, [example_key 9])"
    by code_simp
  have s4: "Solver example_keys [OP_RETURN, 1, 0x2a] = (True, TX_NULL_DATA, [])"
    by code_simp
  have v2: "IsValid example_keys (example_key 2)" by code_simp
  have v3: "\<not> IsValid example_keys (example_key 9)" by code_simp
  have g: "GetID example_keys (example_key 2) = 2 # replicate 19 0x07" by code_simp
  show ?thesis
    using s1 s2 s3 s4 s5 s6 s7 v2 v3 g
      ExtractDestination_by_tag [OF s1, of CNoDestination]
      ExtractDestination_by_tag [OF s2, of CNoDestination]
      ExtractDestination_by_tag [OF s3, of CNoDestination]
      ExtractDestination_by_tag [OF s4, of CNoDestination]
      ExtractDestination_by_tag [OF s5, of CNoDestination]
      ExtractDestination_by_tag [OF s6, of CNoDestination]
      ExtractDestination_by_tag [OF s7, of CNoDestination]
    by simp
qed

section \<open>Round trip\<close>

text \<open>
  C1: for every 20-byte hash \<open>h\<close>, \<open>ExtractDestination\<close> applied to the script that
  \<open>GetScriptForDestination\<close> builds from the key hash \<open>h\<close> succeeds with the key
  hash \<open>h\<close>, and applied to the script built from the script hash \<open>h\<close> it succeeds
  with the script hash \<open>h\<close>.
\<close>

theorem GetScriptForDestination_round_trip:
  assumes "length h = 20"
  shows "ExtractDestination K (GetScriptForDestination (CKeyID h)) addressRet =
           Some (True, CKeyID h) \<and>
         ExtractDestination K (GetScriptForDestination (CScriptID h)) addressRet =
           Some (True, CScriptID h)"
proof -
  have k: "GetScriptForDestination (CKeyID h) =
             [OP_DUP, OP_HASH160, 20] @ h @ [OP_EQUALVERIFY, OP_CHECKSIG]"
    using assms by (simp add: GetScriptForDestination_def push_opcode_def push_vector_def)
  have s: "GetScriptForDestination (CScriptID h) = [OP_HASH160, 20] @ h @ [OP_EQUAL]"
    using assms by (simp add: GetScriptForDestination_def push_opcode_def push_vector_def)
  have sk: "Solver K (OP_DUP # OP_HASH160 # 20 # h @ [OP_EQUALVERIFY, OP_CHECKSIG]) =
              (True, TX_PUBKEYHASH, [h])"
    using assms
    by (simp add: Solver_def IsPayToScriptHash_def IsColoredPayToScriptHash_def
          IsWitnessProgram_def MatchPayToPubkey_def MatchPayToPubkeyHash_def
          bytes_range_def nth_append)
  have ss: "Solver K (OP_HASH160 # 20 # h @ [OP_EQUAL]) = (True, TX_SCRIPTHASH, [h])"
    using assms
    by (simp add: Solver_def IsPayToScriptHash_def bytes_range_def nth_append)
  show ?thesis
    using assms by (simp add: k s ExtractDestination_def sk ss at_def uint160_def)
qed

theorem GetScriptForDestination_round_trip_witness:
  "length example_hash = 20 \<and>
   ExtractDestination example_keys (GetScriptForDestination (CKeyID example_hash))
     CNoDestination = Some (True, CKeyID example_hash) \<and>
   ExtractDestination example_keys (GetScriptForDestination (CScriptID example_hash))
     CNoDestination = Some (True, CScriptID example_hash)"
proof -
  have l: "length example_hash = 20" by (simp add: example_hash_def)
  show ?thesis
    using l GetScriptForDestination_round_trip [OF l, of example_keys CNoDestination]
    by simp
qed

section \<open>Several destinations\<close>

lemma ExtractDestinations_loop_eq:
  "ExtractDestinations_loop K v i a =
     a @ map (\<lambda>k. CKeyID (GetID K k)) (filter (IsValid K) (drop i (butlast v)))"
proof (induction K v i a rule: ExtractDestinations_loop.induct)
  case (1 K v i a)
  show ?case
  proof (cases "i < length v - 1")
    case True
    then have d: "drop i (butlast v) = v ! i # drop (i + 1) (butlast v)"
      using Cons_nth_drop_Suc [of i "butlast v"] by (simp add: nth_butlast)
    show ?thesis
      using True 1 d
      by (subst ExtractDestinations_loop.simps) (simp add: Let_def)
  next
    case False
    then show ?thesis
      by (subst ExtractDestinations_loop.simps) simp
  qed
qed


lemma ExtractDestinations_null_data:
  assumes "Solver K script = (ok, TX_NULL_DATA, sols)"
  shows "ExtractDestinations K script t0 a0 n0 = Some (False, TX_NULL_DATA, [], n0)"
  using assms by (simp add: ExtractDestinations_def)

lemma ExtractDestinations_multisig:
  assumes "Solver K script = (ok, TX_MULTISIG, sols)"
  shows "\<exists>required keys.
           MatchMultisig K script 0 [] = (True, required, keys) \<and>
           sols = [[of_nat required]] @ keys @ [[of_nat (length keys)]] \<and>
           ExtractDestinations K script t0 a0 n0 =
             Some (filter (IsValid K) keys \<noteq> [], TX_MULTISIG,
                   map (\<lambda>k. CKeyID (GetID K k)) (filter (IsValid K) keys), int required)"
proof -
  from Solver_shape [OF assms] obtain required keys where
    ok: "ok" and m: "MatchMultisig K script 0 [] = (True, required, keys)"
    and s: "sols = [[of_nat required]] @ keys @ [[of_nat (length keys)]]"
    by auto
  from MatchMultisig_required_range [OF m] have "required < 256" by simp
  then have u: "uint (of_nat required :: byte) = int required"
    by (simp add: uint_nat unat_of_nat)
  have b: "drop 1 (butlast sols) = keys"
    by (simp add: s butlast_append)
  have "ExtractDestinations K script t0 a0 n0 =
          Some (filter (IsValid K) keys \<noteq> [], TX_MULTISIG,
                map (\<lambda>k. CKeyID (GetID K k)) (filter (IsValid K) keys), int required)"
    using ok u b
    by (simp add: ExtractDestinations_def assms at_def ExtractDestinations_loop_eq s Let_def)
  with m s show ?thesis by blast
qed

lemma ExtractDestinations_other:
  assumes "Solver K script = (ok, t, sols)" and "t \<noteq> TX_NULL_DATA" and "t \<noteq> TX_MULTISIG"
  shows "\<exists>b d. ExtractDestination K script CNoDestination = Some (b, d) \<and>
           ExtractDestinations K script t0 a0 n0 =
             Some (b, t, if b then [d] else [], if ok then 1 else n0)"
proof (cases ok)
  case True
  obtain r where r: "ExtractDestination K script CNoDestination = Some r"
    using ExtractDestination_returns [OF assms(1)] by blast
  then show ?thesis
    using assms True
    by (cases r) (simp add: ExtractDestinations_def)
next
  case False
  then show ?thesis
    using assms by (auto simp: ExtractDestinations_def ExtractDestination_def)
qed






text \<open>
  C10: \<open>ExtractDestinations\<close> always returns, and whenever it returns false the
  address list it leaves is empty, whatever the list held before the call.
\<close>

theorem ExtractDestinations_failure_empty:
  "\<exists>ok t addrs n.
     ExtractDestinations K script t0 a0 n0 = Some (ok, t, addrs, n) \<and>
     (\<not> ok \<longrightarrow> addrs = [])"
proof -
  obtain ok t sols where s: "Solver K script = (ok, t, sols)"
    by (cases "Solver K script") auto
  consider "t = TX_NULL_DATA" | "t = TX_MULTISIG" | "t \<noteq> TX_NULL_DATA" "t \<noteq> TX_MULTISIG"
    by blast
  then show ?thesis
  proof cases
    case 1
    with s show ?thesis by (auto simp: ExtractDestinations_null_data)
  next
    case 2
    from ExtractDestinations_multisig [OF s [unfolded 2], of t0 a0 n0] show ?thesis
      by auto
  next
    case 3
    from ExtractDestinations_other [OF s 3, of t0 a0 n0] show ?thesis
      by auto
  qed
qed

theorem ExtractDestinations_failure_empty_witness:
  "\<exists>ok t addrs n.
     ExtractDestinations example_keys ([OP_1, 33] @ example_key 9 @ [OP_1, OP_CHECKMULTISIG])
       TX_CUSTOM [CKeyID example_hash] 7 = Some (ok, t, addrs, n) \<and>
     \<not> ok \<and> t = TX_MULTISIG \<and> addrs = [] \<and> n = 1"
proof -
  have e: "ExtractDestinations example_keys
             ([OP_1, 33] @ example_key 9 @ [OP_1, OP_CHECKMULTISIG])
             TX_CUSTOM [CKeyID example_hash] 7 = Some (False, TX_MULTISIG, [], 1)"
    by code_simp
  from ExtractDestinations_failure_empty
         [of example_keys "[OP_1, 33] @ example_key 9 @ [OP_1, OP_CHECKMULTISIG]"
            TX_CUSTOM "[CKeyID example_hash]" 7]
  show ?thesis
    using e by simp
qed

section \<open>Properties of the syntax check\<close>

lemma tokens_end: "length script \<le> pc \<Longrightarrow> tokens script pc = Some []"
  by (subst tokens.simps) simp

lemma tokens_step:
  assumes "GetOp script pc = (True, pc', opcode, data)"
  shows "tokens script pc = map_option ((#) (opcode, data)) (tokens script pc')"
proof -
  from GetOp_advance [OF assms] have "pc < length script" by simp
  then show ?thesis
    by (subst tokens.simps) (simp add: assms)
qed

lemma tokens_fail:
  assumes "GetOp script pc = (False, pc', opcode, data)" and "pc < length script"
  shows "tokens script pc = None"
  using assms by (subst tokens.simps) simp

lemma counted_simps:
  "counted [] = 0"
  "counted ((opcode, data) # toks) = (if opcode > OP_16 then 1 else 0) + counted toks"
  by (simp_all add: counted_def)

lemma CheckScriptSyntax_loop_tokens:
  assumes "nOpCount \<le> MAX_OPS_PER_SCRIPT"
  shows "CheckScriptSyntax_loop script it nOpCount \<longleftrightarrow>
           (case tokens script it of
              None \<Rightarrow> False
            | Some toks \<Rightarrow>
                list_all (\<lambda>(opcode, data).
                  \<not> disabled_opcode opcode \<and> length data \<le> MAX_SCRIPT_ELEMENT_SIZE) toks \<and>
                nOpCount + counted toks \<le> MAX_OPS_PER_SCRIPT)"
  using assms
proof (induction script it nOpCount rule: CheckScriptSyntax_loop.induct)
  case (1 script it nOpCount)
  show ?case
  proof (cases "it < length script")
    case False
    then show ?thesis
      using 1(2)
      by (subst CheckScriptSyntax_loop.simps) (simp add: tokens_end counted_simps)
  next
    case True
    obtain ok it' opcode data where g: "GetOp script it = (ok, it', opcode, data)"
      by (cases "GetOp script it") auto
    show ?thesis
    proof (cases ok)
      case False
      with g True show ?thesis
        by (subst CheckScriptSyntax_loop.simps) (simp add: tokens_fail)
    next
      case ok: True
      from g ok have g': "GetOp script it = (True, it', opcode, data)" by simp
      note t = tokens_step [OF g']
      show ?thesis
      proof (cases "length data > MAX_SCRIPT_ELEMENT_SIZE \<or>
                    (opcode > OP_16 \<and> nOpCount + 1 > MAX_OPS_PER_SCRIPT) \<or>
                    disabled_opcode opcode")
        case True
        then show ?thesis
          using g ok \<open>it < length script\<close>
          by (subst CheckScriptSyntax_loop.simps)
             (auto simp: t counted_def split: option.splits)
      next
        case False
        let ?n = "if opcode > OP_16 then nOpCount + 1 else nOpCount"
        have n: "?n \<le> MAX_OPS_PER_SCRIPT" using False 1(2) by auto
        have ih: "CheckScriptSyntax_loop script it' ?n \<longleftrightarrow>
           (case tokens script it' of
              None \<Rightarrow> False
            | Some toks \<Rightarrow>
                list_all (\<lambda>(opcode, data).
                  \<not> disabled_opcode opcode \<and> length data \<le> MAX_SCRIPT_ELEMENT_SIZE) toks \<and>
                ?n + counted toks \<le> MAX_OPS_PER_SCRIPT)"
          using 1(1) [of ok "(it', opcode, data)" it' "(opcode, data)" opcode data]
            True g False ok n
          by auto
        have "CheckScriptSyntax_loop script it nOpCount = CheckScriptSyntax_loop script it' ?n"
          using g ok \<open>it < length script\<close> False
          by (subst CheckScriptSyntax_loop.simps) auto
        then show ?thesis
          using False by (auto simp: ih t counted_simps split: option.splits)
      qed
    qed
  qed
qed


text \<open>
  C6: \<open>CheckScriptSyntax\<close> accepts a script exactly when its tokenization succeeds,
  no token of the opcode stream, at whatever position, is an opcode of the disabled set
  or carries more than \<open>MAX_SCRIPT_ELEMENT_SIZE\<close> bytes, and at most
  \<open>MAX_OPS_PER_SCRIPT\<close> tokens are opcodes above \<open>OP_16\<close>. In every other case it
  rejects the script.
\<close>

theorem CheckScriptSyntax_tokens:
  "CheckScriptSyntax script \<longleftrightarrow>
     (case tokens script 0 of
        None \<Rightarrow> False
      | Some toks \<Rightarrow>
          list_all (\<lambda>(opcode, data).
            \<not> disabled_opcode opcode \<and> length data \<le> MAX_SCRIPT_ELEMENT_SIZE) toks \<and>
          counted toks \<le> MAX_OPS_PER_SCRIPT)"
  using CheckScriptSyntax_loop_tokens [of 0 script 0]
  by (simp add: CheckScriptSyntax_def split: option.splits)

theorem CheckScriptSyntax_tokens_witness:
  "tokens [OP_DUP, OP_CAT, OP_DUP] 0 = Some [(OP_DUP, []), (OP_CAT, []), (OP_DUP, [])] \<and>
   \<not> CheckScriptSyntax [OP_DUP, OP_CAT, OP_DUP] \<and>
   tokens [5, 1] 0 = None \<and>
   \<not> CheckScriptSyntax [5, 1] \<and>
   tokens ([OP_PUSHDATA2, 9, 2] @ replicate 521 0) 0 = Some [(OP_PUSHDATA2, replicate 521 0)] \<and>
   \<not> CheckScriptSyntax ([OP_PUSHDATA2, 9, 2] @ replicate 521 0) \<and>
   tokens [OP_DUP, 2, 7, 7, OP_16] 0 = Some [(OP_DUP, []), (2, [7, 7]), (OP_16, [])] \<and>
   CheckScriptSyntax [OP_DUP, 2, 7, 7, OP_16]"
proof -
  have t1: "tokens [OP_DUP, OP_CAT, OP_DUP] 0 = Some [(OP_DUP, []), (OP_CAT, []), (OP_DUP, [])]"
    by code_simp
  have t2: "tokens [5, 1] 0 = None"
    by code_simp
  have t3: "tokens ([OP_PUSHDATA2, 9, 2] @ replicate 521 0) 0 =
              Some [(OP_PUSHDATA2, replicate 521 0)]"
    by code_simp
  have t4: "tokens [OP_DUP, 2, 7, 7, OP_16] 0 = Some [(OP_DUP, []), (2, [7, 7]), (OP_16, [])]"
    by code_simp
  show ?thesis
    using t1 t2 t3 t4
      CheckScriptSyntax_tokens [of "[OP_DUP, OP_CAT, OP_DUP]"]
      CheckScriptSyntax_tokens [of "[5, 1]"]
      CheckScriptSyntax_tokens [of "[OP_PUSHDATA2, 9, 2] @ replicate 521 0"]
      CheckScriptSyntax_tokens [of "[OP_DUP, 2, 7, 7, OP_16]"]
    by (simp add: disabled_opcode_def counted_def)
qed

section \<open>Properties of the multisig matcher\<close>

lemma GetOp_small_integer:
  assumes "GetOp script pc = (ok, pc', opcode, data)" and "IsSmallInteger opcode"
  shows "ok \<and> data = [] \<and> pc' = pc + 1 \<and> pc < length script"
  using assms
  by (auto simp: GetOp_def Let_def IsSmallInteger_def word_le_nat_alt
      split: if_splits option.splits prod.splits)

lemma MatchMultisig_loop_tokens:
  assumes "MatchMultisig_loop K script it ks = (it', opcode, ks')"
    and "IsSmallInteger opcode"
  shows "\<exists>ops new. ks' = ks @ new \<and> length ops = length new \<and> list_all (ValidSize K) new \<and>
           it' \<le> length script \<and>
           tokens script it =
             map_option (\<lambda>rest. zip ops new @ (opcode, []) # rest) (tokens script it')"
  using assms
proof (induction K script it ks rule: MatchMultisig_loop.induct)
  case (1 K script it pubkeys)
  obtain ok it1 op1 d1 where g: "GetOp script it = (ok, it1, op1, d1)"
    by (cases "GetOp script it") auto
  show ?case
  proof (cases "ok \<and> ValidSize K d1")
    case True
    then have g': "GetOp script it = (True, it1, op1, d1)" using g by simp
    have r: "MatchMultisig_loop K script it1 (pubkeys @ [d1]) = (it', opcode, ks')"
      using 1(2) g True by (subst (asm) MatchMultisig_loop.simps) simp
    from 1(1) [of ok "(it1, op1, d1)" it1 "(op1, d1)" op1 d1] g True r 1(3)
    obtain ops new where
      k: "ks' = (pubkeys @ [d1]) @ new" and l: "length ops = length new"
      and v: "list_all (ValidSize K) new" and b: "it' \<le> length script"
      and t: "tokens script it1 =
                map_option (\<lambda>rest. zip ops new @ (opcode, []) # rest) (tokens script it')"
      by auto
    have "tokens script it =
            map_option (\<lambda>rest. zip (op1 # ops) (d1 # new) @ (opcode, []) # rest)
              (tokens script it')"
      by (simp add: tokens_step [OF g'] t option.map_comp comp_def)
    moreover have "ks' = pubkeys @ (d1 # new)" using k by simp
    moreover have "length (op1 # ops) = length (d1 # new)" using l by simp
    moreover have "list_all (ValidSize K) (d1 # new)" using v True by simp
    ultimately show ?thesis using b by blast
  next
    case False
    then have r: "it' = it1" "opcode = op1" "ks' = pubkeys"
      using 1(2) g by (subst (asm) MatchMultisig_loop.simps, auto)+
    from GetOp_small_integer [OF g] 1(3) r
    have s: "ok" "d1 = []" "it1 = it + 1" "it < length script" by auto
    then have g': "GetOp script it = (True, it', opcode, [])" using g r by simp
    have "tokens script it =
            map_option (\<lambda>rest. zip [] [] @ (opcode, []) # rest) (tokens script it')"
      by (simp add: tokens_step [OF g'])
    moreover have "it' \<le> length script" using s r by simp
    ultimately show ?thesis using r
      by (intro exI [of _ "[]"]) simp
  qed
qed


lemma GetOp_last_CHECKMULTISIG:
  assumes "it + 1 = length script" and "last script = OP_CHECKMULTISIG"
  shows "tokens script it = Some [(OP_CHECKMULTISIG, [])]"
proof -
  from assms have n: "script \<noteq> []" by auto
  have "script ! it = OP_CHECKMULTISIG"
    using assms last_conv_nth [OF n] by (metis add_diff_cancel_right')
  then have "GetOp script it = (True, it + 1, OP_CHECKMULTISIG, [])"
    using assms by (simp add: GetOp_def Let_def)
  from tokens_step [OF this] show ?thesis
    using assms by (simp add: tokens_end)
qed

lemma MatchMultisig_form:
  assumes "MatchMultisig K script required0 [] = (True, required, pubkeys)"
  shows "multisig_form K script required pubkeys"
proof -
  obtain ok it1 opr d0 where g0: "GetOp script 0 = (ok, it1, opr, d0)"
    by (cases "GetOp script 0") auto
  obtain it2 opn ks where l: "MatchMultisig_loop K script it1 [] = (it2, opn, ks)"
    by (cases "MatchMultisig_loop K script it1 []") auto
  from assms g0 l have f: "script \<noteq> []" "last script = OP_CHECKMULTISIG" "ok"
    "IsSmallInteger opr" "required = DecodeOP_N opr" "IsSmallInteger opn" "ks = pubkeys"
    "length pubkeys = DecodeOP_N opn" "required \<le> DecodeOP_N opn" "it2 + 1 = length script"
    by (auto simp: MatchMultisig_def Let_def split: if_splits)
  from GetOp_small_integer [OF g0 f(4)] g0
  have g0': "GetOp script 0 = (True, it1, opr, [])" by simp
  from MatchMultisig_loop_tokens [OF l f(6)] f(7) obtain ops where
    o: "length ops = length pubkeys" and v: "list_all (ValidSize K) pubkeys"
    and t: "tokens script it1 =
              map_option (\<lambda>rest. zip ops pubkeys @ (opn, []) # rest) (tokens script it2)"
    by auto
  have "tokens script 0 =
          Some ((opr, []) # zip ops pubkeys @ [(opn, []), (OP_CHECKMULTISIG, [])])"
    by (simp add: tokens_step [OF g0'] t GetOp_last_CHECKMULTISIG [OF f(10) f(2)])
  moreover have "1 \<le> required" "length pubkeys \<le> 16"
    using IsSmallInteger_DecodeOP_N [OF f(4)] IsSmallInteger_DecodeOP_N [OF f(6)] f by auto
  ultimately show ?thesis
    unfolding multisig_form_def using f o v by auto
qed

text \<open>
  C2: when \<open>MatchMultisig\<close> accepts a script (called, as the Solver calls it, with no
  key collected yet), then \<open>1 \<le> required \<le> keyCount \<le> 16\<close>, the key count is the
  number of collected keys, and the opcode stream of the script is the threshold opcode,
  the key pushes, the key-count opcode and nothing after it but the final
  \<open>OP_CHECKMULTISIG\<close>. So a script that is not of this form is not accepted, and the
  Solver classifies as \<open>TX_MULTISIG\<close> only scripts of this form.
\<close>

theorem MatchMultisig_accepts:
  "(MatchMultisig K script required0 [] = (True, required, pubkeys) \<longrightarrow>
      multisig_form K script required pubkeys) \<and>
   (Solver K script = (ok, TX_MULTISIG, sols) \<longrightarrow>
      (\<exists>required pubkeys.
         sols = [[of_nat required]] @ pubkeys @ [[of_nat (length pubkeys)]] \<and>
         multisig_form K script required pubkeys))"
proof (intro conjI impI)
  assume "MatchMultisig K script required0 [] = (True, required, pubkeys)"
  then show "multisig_form K script required pubkeys" by (rule MatchMultisig_form)
next
  assume "Solver K script = (ok, TX_MULTISIG, sols)"
  from Solver_shape [OF this] obtain required pubkeys where
    "MatchMultisig K script 0 [] = (True, required, pubkeys)"
    "sols = [[of_nat required]] @ pubkeys @ [[of_nat (length pubkeys)]]"
    by auto
  then show "\<exists>required pubkeys.
         sols = [[of_nat required]] @ pubkeys @ [[of_nat (length pubkeys)]] \<and>
         multisig_form K script required pubkeys"
    using MatchMultisig_form by blast
qed

theorem MatchMultisig_accepts_witness:
  "tokens ([OP_1, 33] @ example_key 2 @ [33] @ example_key 3 @ [0x52, OP_CHECKMULTISIG]) 0 =
     Some [(OP_1, []), (33, example_key 2), (33, example_key 3), (0x52, []),
           (OP_CHECKMULTISIG, [])] \<and>
   MatchMultisig example_keys
     ([OP_1, 33] @ example_key 2 @ [33] @ example_key 3 @ [0x52, OP_CHECKMULTISIG]) 0 [] =
     (True, 1, [example_key 2, example_key 3]) \<and>
   multisig_form example_keys
     ([OP_1, 33] @ example_key 2 @ [33] @ example_key 3 @ [0x52, OP_CHECKMULTISIG])
     1 [example_key 2, example_key 3] \<and>
   Solver example_keys
     ([OP_1, 33] @ example_key 2 @ [33] @ example_key 3 @ [0x52, OP_CHECKMULTISIG]) =
     (True, TX_MULTISIG, [[1], example_key 2, example_key 3, [2]]) \<and>
   (\<exists>required pubkeys.
      [[1], example_key 2, example_key 3, [2]] =
        [[of_nat required]] @ pubkeys @ [[of_nat (length pubkeys)]] \<and>
      multisig_form example_keys
        ([OP_1, 33] @ example_key 2 @ [33] @ example_key 3 @ [0x52, OP_CHECKMULTISIG])
        required pubkeys)"
proof -
  have m: "MatchMultisig example_keys
             ([OP_1, 33] @ example_key 2 @ [33] @ example_key 3 @ [0x52, OP_CHECKMULTISIG]) 0 [] =
             (True, 1, [example_key 2, example_key 3])"
    by code_simp
  have s: "Solver example_keys
             ([OP_1, 33] @ example_key 2 @ [33] @ example_key 3 @ [0x52, OP_CHECKMULTISIG]) =
             (True, TX_MULTISIG, [[1], example_key 2, example_key 3, [2]])"
    by code_simp
  have k: "tokens ([OP_1, 33] @ example_key 2 @ [33] @ example_key 3 @
                    [0x52, OP_CHECKMULTISIG]) 0 =
             Some [(OP_1, []), (33, example_key 2), (33, example_key 3), (0x52, []),
                   (OP_CHECKMULTISIG, [])]"
    by code_simp
  show ?thesis
    using m s k
      MatchMultisig_accepts [of example_keys
        "[OP_1, 33] @ example_key 2 @ [33] @ example_key 3 @ [0x52, OP_CHECKMULTISIG]"
        0 1 "[example_key 2, example_key 3]" True "[[1], example_key 2, example_key 3, [2]]"]
    by simp
qed

section \<open>Color identifiers\<close>

text \<open>
  The color identifier that \<open>MatchColoredPayToPubkeyHash\<close> returns is 33 bytes long and
  starts with the kind 1, 2 or 3, and the hash it returns is 20 bytes long.
\<close>

lemma MatchColoredPayToPubkeyHash_colorid:
  assumes "MatchColoredPayToPubkeyHash script pubkeyhash0 colorid0 = (True, pubkeyhash, colorid)"
  shows "length colorid = 33 \<and> hd colorid \<in> {1, 2, 3} \<and> length pubkeyhash = 20"
  using assms
  by (auto simp: MatchColoredPayToPubkeyHash_def bytes_range_def hd_drop_conv_nth
      split: if_splits)

text \<open>
  The color identifier that the Solver appends to the solutions of a colored script is
  33 bytes long and starts with the kind 1, 2 or 3.
\<close>

lemma Solver_colorid:
  assumes "Solver K script = (ok, t, sols)"
    and "t = TX_COLOR_SCRIPTHASH \<or> t = TX_COLOR_PUBKEYHASH"
  shows "length sols = 2 \<and> length (sols ! 1) = 33 \<and> hd (sols ! 1) \<in> {1, 2, 3}"
  using Solver_shape [OF assms(1)] assms(2)
  by (auto simp: IsColoredPayToScriptHash_def MatchColoredPayToPubkeyHash_def bytes_range_def
      hd_drop_conv_nth split: if_splits)

text \<open>
  C7, for the generic colored-script scan: on the script \<open>02 21 04\<close>, 31 times
  \<open>61\<close>, \<open>bc 00\<close> the scan \<open>MatchCustomColoredScript\<close> returns true; the identifier it
  has extracted into its local vector is 33 bytes long, starts with the byte 4, which is
  no kind, and ends with the \<open>OP_COLOR\<close> opcode itself; the reference parameter
  \<open>colorid\<close> is left as it was.
\<close>

theorem MatchCustomColoredScript_kind_unchecked:
  "MatchCustomColoredScript ([2, 0x21, 4] @ replicate 31 0x61 @ [OP_COLOR, OP_0]) [] =
     (True, [], [4] @ replicate 31 0x61 @ [OP_COLOR])"
  by code_simp

text \<open>
  C8: \<open>MatchCustomColoredScript\<close> returns false on every script that starts with a
  push of 33 bytes immediately followed by \<open>OP_COLOR\<close> (the pattern of the comment in
  the source, with the first byte \<open>21\<close> at position 0 and \<open>OP_COLOR\<close> at distance
  34): the position it compares with is the one after the \<open>OP_COLOR\<close> token. And on
  every script it leaves the reference parameter \<open>colorid\<close> as it was: the identifier
  goes to a local vector.
\<close>

theorem MatchCustomColoredScript_defects:
  "(length ident = 33 \<longrightarrow>
      MatchCustomColoredScript ([0x21] @ ident @ [OP_COLOR] @ rest) colorid =
        (False, colorid, [])) \<and>
   fst (snd (MatchCustomColoredScript script colorid)) = colorid"
proof (intro conjI impI)
  assume l: "length ident = 33"
  let ?s = "[0x21] @ ident @ [OP_COLOR] @ rest"
  have g0: "GetOp ?s 0 = (True, 34, 0x21, ident)"
    using l by (simp add: GetOp_def push_size_def Let_def)
  have g1: "GetOp ?s 34 = (True, 35, OP_COLOR, [])"
    using l by (simp add: GetOp_def Let_def nth_append)
  have "scan_OP_COLOR ?s 34 = Some 35"
    using l by (subst scan_OP_COLOR.simps) (simp add: g1 del: append.simps)
  then have sc: "scan_OP_COLOR ?s 0 = Some 35"
    using l by (subst scan_OP_COLOR.simps) (simp add: g0 del: append.simps)
  have f: "find_byte ?s 0x21 = 0"
    by (simp add: find_byte_def)
  show "MatchCustomColoredScript ?s colorid = (False, colorid, [])"
    using l by (simp add: MatchCustomColoredScript_def sc f Let_def del: append.simps)
next
  show "fst (snd (MatchCustomColoredScript script colorid)) = colorid"
    by (simp add: MatchCustomColoredScript_def Let_def split: option.splits)
qed

theorem MatchCustomColoredScript_defects_witness:
  "length (1 # replicate 32 (9 :: byte)) = 33 \<and>
   MatchCustomColoredScript ([0x21] @ (1 # replicate 32 9) @ [OP_COLOR] @ [OP_1]) [0xaa] =
     (False, [0xaa], []) \<and>
   MatchCustomColoredScript ([1, 0x21] @ replicate 32 0x61 @ [OP_COLOR, OP_0]) [0xaa] =
     (True, [0xaa], replicate 32 0x61 @ [OP_COLOR])"
proof -
  have l: "length (1 # replicate 32 (9 :: byte)) = 33" by simp
  have e: "MatchCustomColoredScript ([1, 0x21] @ replicate 32 0x61 @ [OP_COLOR, OP_0]) [0xaa] =
             (True, [0xaa], replicate 32 0x61 @ [OP_COLOR])"
    by code_simp
  from MatchCustomColoredScript_defects [of "1 # replicate 32 9" "[OP_1]" "[0xaa]"] l
  have "MatchCustomColoredScript ([0x21] @ (1 # replicate 32 9) @ [OP_COLOR] @ [OP_1]) [0xaa] =
          (False, [0xaa], [])"
    by blast
  with l e show ?thesis by blast
qed

end
